theory Spec2Isabelle
  imports Main "HOL-Library.Word" "HOL-Library.Sublist"
begin

unbundle bit_operations_syntax

section \<open>Python strings\<close>

text \<open>
  A Python \<open>str\<close> is a sequence of Unicode code points. Every string of this program
  is decoded from a response body, unquoted with replacement, or written as a literal,
  so its code points are Unicode scalar values: \<open>0 .. 0xD7FF\<close> and
  \<open>0xE000 .. 0x10FFFF\<close>. The type \<open>uchar\<close> holds exactly these; \<open>cp\<close> reads the code
  point and \<open>uc\<close> builds the character. \<open>len\<close> is \<open>length\<close>: it counts code points.
\<close>

typedef uchar = "{n::nat. n < 55296 \<or> (57344 \<le> n \<and> n < 1114112)}"
  morphisms cp uc
  by (rule exI [of _ 0]) simp

type_synonym ustr = "uchar list"

definition scalar :: "nat \<Rightarrow> bool" where
  "scalar n = (n < 55296 \<or> (57344 \<le> n \<and> n < 1114112))"

lemma cp_uc: "scalar n \<Longrightarrow> cp (uc n) = n"
  by (simp add: scalar_def uc_inverse)


text \<open>ASCII and Latin-1 literals: \<open>u ''abc''\<close> is the Python literal \<open>"abc"\<close>.\<close>

definition u :: "string \<Rightarrow> ustr" where
  "u s = map (\<lambda>c. uc (of_char c)) s"

text \<open>Code points written out, for literals beyond Latin-1.\<close>

definition ucs :: "nat list \<Rightarrow> ustr" where
  "ucs ns = map uc ns"

text \<open>
  The slice \<open>xs[:n]\<close> for a Python integer \<open>n\<close>: the first \<open>n\<close> elements, and for a
  negative \<open>n\<close> all but the last \<open>-n\<close>.
\<close>

definition slice_to :: "int \<Rightarrow> 'a list \<Rightarrow> 'a list" where
  "slice_to n xs =
     (if 0 \<le> n then take (nat n) xs else take (length xs - nat (- n)) xs)"

section \<open>String operations of the Python library\<close>

text \<open>
  \<open>str.lower()\<close>. The model lower-cases the ASCII letters and leaves every other
  character as it is, which is what Python does on ASCII text and on the caseless
  scripts (the Chinese keywords and labels of this program among them). Cased letters
  beyond ASCII are outside the model.
\<close>

definition lower_char :: "uchar \<Rightarrow> uchar" where
  "lower_char c = (if 65 \<le> cp c \<and> cp c \<le> 90 then uc (cp c + 32) else c)"

definition lower :: "ustr \<Rightarrow> ustr" where
  "lower s = map lower_char s"

text \<open>
  \<open>str.strip()\<close> removes leading and trailing white space: the characters for which
  \<open>str.isspace()\<close> holds.
\<close>

definition isspace :: "uchar \<Rightarrow> bool" where
  "isspace c =
     (let n = cp c in
      (9 \<le> n \<and> n \<le> 13) \<or> (28 \<le> n \<and> n \<le> 32) \<or> n = 133 \<or> n = 160 \<or> n = 5760
      \<or> (8192 \<le> n \<and> n \<le> 8202) \<or> n = 8232 \<or> n = 8233 \<or> n = 8239 \<or> n = 8287
      \<or> n = 12288)"

definition strip :: "ustr \<Rightarrow> ustr" where
  "strip s = rev (dropWhile isspace (rev (dropWhile isspace s)))"

text \<open>\<open>sub in text\<close>: \<open>sub\<close> occurs in \<open>text\<close> as a contiguous piece.\<close>

fun str_in :: "'a list \<Rightarrow> 'a list \<Rightarrow> bool" where
  "str_in sub [] = (sub = [])"
| "str_in sub (c # cs) = (prefix sub (c # cs) \<or> str_in sub cs)"


text \<open>\<open>str.encode()\<close>: UTF-8. It is total on scalar values.\<close>

definition encode_char :: "uchar \<Rightarrow> 8 word list" where
  "encode_char c =
     (let n = cp c in
      if n < 128 then [of_nat n]
      else if n < 2048 then [of_nat (192 + n div 64), of_nat (128 + n mod 64)]
      else if n < 65536 then
        [of_nat (224 + n div 4096), of_nat (128 + (n div 64) mod 64), of_nat (128 + n mod 64)]
      else
        [of_nat (240 + n div 262144), of_nat (128 + (n div 4096) mod 64),
         of_nat (128 + (n div 64) mod 64), of_nat (128 + n mod 64)])"

definition encode :: "ustr \<Rightarrow> 8 word list" where
  "encode s = concat (map encode_char s)"

subsection \<open>Evaluating string operations on literals\<close>

text \<open>
  Literals are brought to the form \<open>ucs ns\<close> with \<open>ns\<close> a list of code points, on
  which the operations compute.
\<close>

definition lower_nat :: "nat \<Rightarrow> nat" where
  "lower_nat n = (if 65 \<le> n \<and> n \<le> 90 then n + 32 else n)"

lemma of_char_less: "(of_char c :: nat) < 256"
proof -
  have "(of_char c :: nat) mod 256 = of_char c" by (rule of_char_mod_256)
  then show ?thesis by (metis mod_less_divisor zero_less_numeral)
qed

lemma scalar_of_char: "scalar (of_char c)"
proof -
  have "(of_char c :: nat) < 256" by (rule of_char_less)
  then have "(of_char c :: nat) < 55296" by arith
  then show ?thesis unfolding scalar_def by blast
qed

lemma u_ucs: "u s = ucs (map of_char s)"
  by (simp add: u_def ucs_def)

lemma lower_ucs: "list_all scalar ns \<Longrightarrow> lower (ucs ns) = ucs (map lower_nat ns)"
  by (induction ns)
     (simp_all add: lower_def ucs_def lower_char_def lower_nat_def cp_uc)

lemma append_ucs: "ucs a @ ucs b = ucs (a @ b)"
  by (simp add: ucs_def)

lemma cp_ucs: "list_all scalar ns \<Longrightarrow> map cp (ucs ns) = ns"
  by (induction ns) (simp_all add: ucs_def cp_uc)

lemma prefix_cp: "prefix (map cp a) (map cp b) = prefix a b"
proof
  assume "prefix (map cp a) (map cp b)"
  then obtain zs where "map cp b = map cp a @ zs" by (auto simp: prefix_def)
  then have "map cp (take (length a) b) = map cp a"
    by (metis append_eq_conv_conj length_map take_map)
  then have "take (length a) b = a"
    by (simp add: inj_map_eq_map inj_on_def cp_inject)
  then show "prefix a b" by (metis take_is_prefix)
next
  assume "prefix a b"
  then show "prefix (map cp a) (map cp b)" by (rule map_mono_prefix)
qed

lemma str_in_cp: "str_in (map cp a) (map cp b) = str_in a b"
proof (induction b)
  case Nil
  show ?case by simp
next
  case (Cons c b)
  show ?case using Cons.IH prefix_cp [of a "c # b"] by simp
qed

lemma str_in_ucs:
  "list_all scalar a \<Longrightarrow> list_all scalar b \<Longrightarrow> str_in (ucs a) (ucs b) = str_in a b"
  using str_in_cp [of "ucs a" "ucs b"] by (simp add: cp_ucs)











section \<open>MD5 (\<open>hashlib.md5\<close>)\<close>

definition md5_s :: "nat list" where
  "md5_s = [7, 12, 17, 22, 7, 12, 17, 22, 7, 12, 17, 22, 7, 12, 17, 22,
            5, 9, 14, 20, 5, 9, 14, 20, 5, 9, 14, 20, 5, 9, 14, 20,
            4, 11, 16, 23, 4, 11, 16, 23, 4, 11, 16, 23, 4, 11, 16, 23,
            6, 10, 15, 21, 6, 10, 15, 21, 6, 10, 15, 21, 6, 10, 15, 21]"

definition md5_K :: "32 word list" where
  "md5_K = [3614090360, 3905402710, 606105819, 3250441966, 4118548399, 1200080426, 2821735955, 4249261313,
            1770035416, 2336552879, 4294925233, 2304563134, 1804603682, 4254626195, 2792965006, 1236535329,
            4129170786, 3225465664, 643717713, 3921069994, 3593408605, 38016083, 3634488961, 3889429448,
            568446438, 3275163606, 4107603335, 1163531501, 2850285829, 4243563512, 1735328473, 2368359562,
            4294588738, 2272392833, 1839030562, 4259657740, 2763975236, 1272893353, 4139469664, 3200236656,
            681279174, 3936430074, 3572445317, 76029189, 3654602809, 3873151461, 530742520, 3299628645,
            4096336452, 1126891415, 2878612391, 4237533241, 1700485571, 2399980690, 4293915773, 2240044497,
            1873313359, 4264355552, 2734768916, 1309151649, 4149444226, 3174756917, 718787259, 3951481745]"

type_synonym md5_state = "32 word \<times> 32 word \<times> 32 word \<times> 32 word"

definition md5_init :: md5_state where
  "md5_init = (0x67452301, 0xefcdab89, 0x98badcfe, 0x10325476)"

definition md5_pad :: "8 word list \<Rightarrow> 8 word list" where
  "md5_pad msg =
     (let bits = (of_nat (8 * length msg) :: 64 word)
      in msg @ [0x80] @ replicate ((119 - length msg mod 64) mod 64) 0
             @ map (\<lambda>i. ucast (drop_bit (8 * i) bits)) [0..<8])"

definition le_word :: "8 word list \<Rightarrow> 32 word" where
  "le_word bs = foldr (\<lambda>b w. ucast b OR push_bit 8 w) bs 0"

definition md5_words :: "8 word list \<Rightarrow> 32 word list" where
  "md5_words block = map (\<lambda>j. le_word (take 4 (drop (4 * j) block))) [0..<16]"

definition md5_step :: "32 word list \<Rightarrow> nat \<Rightarrow> md5_state \<Rightarrow> md5_state" where
  "md5_step M i st =
     (case st of (A, B, C, D) \<Rightarrow>
        let (F, g) =
              (if i < 16 then ((B AND C) OR (NOT B AND D), i)
               else if i < 32 then ((D AND B) OR (NOT D AND C), (5 * i + 1) mod 16)
               else if i < 48 then (B XOR C XOR D, (3 * i + 5) mod 16)
               else (C XOR (B OR NOT D), (7 * i) mod 16));
            F' = F + A + md5_K ! i + M ! g
        in (D, B + word_rotl (md5_s ! i) F', B, C))"

definition md5_block :: "md5_state \<Rightarrow> 8 word list \<Rightarrow> md5_state" where
  "md5_block st block =
     (case st of (a0, b0, c0, d0) \<Rightarrow>
        case fold (md5_step (md5_words block)) [0..<64] st of (A, B, C, D) \<Rightarrow>
          (a0 + A, b0 + B, c0 + C, d0 + D))"

definition md5_blocks :: "8 word list \<Rightarrow> 8 word list list" where
  "md5_blocks bs = map (\<lambda>k. take 64 (drop (64 * k) bs)) [0..<length bs div 64]"

definition md5 :: "8 word list \<Rightarrow> md5_state" where
  "md5 msg = fold (\<lambda>block st. md5_block st block) (md5_blocks (md5_pad msg)) md5_init"

definition word_bytes :: "32 word \<Rightarrow> 8 word list" where
  "word_bytes w = map (\<lambda>i. ucast (drop_bit (8 * i) w)) [0..<4]"

definition digest :: "md5_state \<Rightarrow> 8 word list" where
  "digest st = (case st of (a, b, c, d) \<Rightarrow> concat (map word_bytes [a, b, c, d]))"

definition hex_digit :: "nat \<Rightarrow> uchar" where
  "hex_digit n = uc (if n < 10 then 48 + n else 87 + n)"

definition hex_byte :: "8 word \<Rightarrow> ustr" where
  "hex_byte b = [hex_digit (unat b div 16), hex_digit (unat b mod 16)]"

definition hexdigest :: "md5_state \<Rightarrow> ustr" where
  "hexdigest st = concat (map hex_byte (digest st))"

definition is_hex :: "uchar \<Rightarrow> bool" where
  "is_hex c = ((48 \<le> cp c \<and> cp c \<le> 57) \<or> (97 \<le> cp c \<and> cp c \<le> 102))"

lemma hex_bytes_length: "length (concat (map hex_byte bs)) = 2 * length bs"
  by (induction bs) (simp_all add: hex_byte_def)

lemma digest_length: "length (digest st) = 16"
  by (cases st) (simp add: digest_def word_bytes_def)

lemma hexdigest_length: "length (hexdigest st) = 32"
  by (simp add: hexdigest_def hex_bytes_length digest_length)

lemma hex_digit_is_hex: "n < 16 \<Longrightarrow> is_hex (hex_digit n)"
  by (auto simp: is_hex_def hex_digit_def cp_uc scalar_def)

lemma hex_byte_is_hex: "c \<in> set (hex_byte b) \<Longrightarrow> is_hex c"
proof -
  have "unat b < 256" using unsigned_less [of b] by simp
  then have "unat b div 16 < 16" by simp
  moreover assume "c \<in> set (hex_byte b)"
  ultimately show ?thesis by (auto simp: hex_byte_def intro: hex_digit_is_hex)
qed

lemma hexdigest_is_hex: "c \<in> set (hexdigest st) \<Longrightarrow> is_hex c"
  by (auto simp: hexdigest_def dest: hex_byte_is_hex)

section \<open>The filter on article urls\<close>




section \<open>The article\<close>

text \<open>
  The dataclass \<open>NewsArticle\<close>. \<open>uid\<close> is a property: it is computed from \<open>url\<close> at
  each access and is no field of the record.
\<close>

record NewsArticle =
  title :: ustr
  url :: ustr
  summary :: ustr
  source :: ustr
  category :: ustr
  published_at :: "ustr option"
  tags :: "ustr list"

definition hash12 :: "ustr \<Rightarrow> ustr" where
  "hash12 s = take 12 (hexdigest (md5 (encode s)))"

definition uid :: "NewsArticle \<Rightarrow> ustr" where
  "uid a = take 12 (hexdigest (md5 (encode (url a))))"

section \<open>Deduplication\<close>

text \<open>
  \<open>_deduplicate\<close>: one pass, with the two sets of keys seen so far and the list of
  articles kept so far.
\<close>

definition title_key :: "NewsArticle \<Rightarrow> ustr" where
  "title_key a = strip (lower (take 20 (title a)))"

fun dedup_loop ::
  "ustr set \<Rightarrow> ustr set \<Rightarrow> NewsArticle list \<Rightarrow> NewsArticle list \<Rightarrow> NewsArticle list" where
  "dedup_loop seen_uids seen_titles unique [] = unique"
| "dedup_loop seen_uids seen_titles unique (a # articles) =
     (if uid a \<in> seen_uids then dedup_loop seen_uids seen_titles unique articles
      else if title_key a \<in> seen_titles then dedup_loop seen_uids seen_titles unique articles
      else dedup_loop (insert (uid a) seen_uids) (insert (title_key a) seen_titles)
             (unique @ [a]) articles)"

definition deduplicate :: "NewsArticle list \<Rightarrow> NewsArticle list" where
  "deduplicate articles = dedup_loop {} {} [] articles"

text \<open>An article with a title and a url and nothing else, for concrete inputs.\<close>

definition art :: "string \<Rightarrow> string \<Rightarrow> NewsArticle" where
  "art t l = \<lparr>title = u t, url = u l, summary = [], source = [], category = [],
             published_at = None, tags = []\<rparr>"

lemma dedup_loop_acc:
  "dedup_loop su st un xs = un @ dedup_loop su st [] xs"
proof (induction xs arbitrary: su st un)
  case Nil
  show ?case by simp
next
  case (Cons a xs)
  show ?case
    using Cons.IH [of su st un]
          Cons.IH [of "insert (uid a) su" "insert (title_key a) st" "un @ [a]"]
          Cons.IH [of "insert (uid a) su" "insert (title_key a) st" "[a]"]
    by simp
qed

lemma dedup_loop_Cons:
  "dedup_loop su st [] (a # xs) =
     (if uid a \<in> su \<or> title_key a \<in> st then dedup_loop su st [] xs
      else a # dedup_loop (insert (uid a) su) (insert (title_key a) st) [] xs)"
  using dedup_loop_acc [of "insert (uid a) su" "insert (title_key a) st" "[a]" xs]
  by simp

declare dedup_loop.simps(2) [simp del]

lemma dedup_loop_append:
  "dedup_loop su st [] (xs @ zs) =
     dedup_loop su st [] xs
     @ dedup_loop (su \<union> uid ` set (dedup_loop su st [] xs))
                  (st \<union> title_key ` set (dedup_loop su st [] xs)) [] zs"
proof (induction xs arbitrary: su st)
  case Nil
  show ?case by simp
next
  case (Cons a xs)
  show ?case
  proof (cases "uid a \<in> su \<or> title_key a \<in> st")
    case True
    then show ?thesis using Cons.IH [of su st] by (simp only: dedup_loop_Cons append_Cons if_True)
  next
    case False
    have "insert (uid a) su \<union> uid ` set ys = su \<union> uid ` set (a # ys)"
         "insert (title_key a) st \<union> title_key ` set ys = st \<union> title_key ` set (a # ys)" for ys
      by auto
    then show ?thesis
      using False Cons.IH [of "insert (uid a) su" "insert (title_key a) st"]
      by (simp only: dedup_loop_Cons append_Cons if_False)
  qed
qed

lemma dedup_loop_fresh:
  "y \<in> set (dedup_loop su st [] xs) \<Longrightarrow> uid y \<notin> su \<and> title_key y \<notin> st \<and> y \<in> set xs"
proof (induction xs arbitrary: su st)
  case Nil
  then show ?case by simp
next
  case (Cons a xs)
  then show ?case
    by (auto simp: dedup_loop_Cons split: if_splits)
qed

lemma dedup_loop_distinct:
  "distinct (map uid (dedup_loop su st [] xs)) \<and> distinct (map title_key (dedup_loop su st [] xs))"
proof (induction xs arbitrary: su st)
  case Nil
  show ?case by simp
next
  case (Cons a xs)
  have fresh: "uid y \<noteq> uid a \<and> title_key y \<noteq> title_key a"
    if "y \<in> set (dedup_loop (insert (uid a) su) (insert (title_key a) st) [] xs)" for y
    using dedup_loop_fresh [OF that] by simp
  show ?case
  proof (cases "uid a \<in> su \<or> title_key a \<in> st")
    case True
    then show ?thesis using Cons.IH [of su st] by (simp add: dedup_loop_Cons)
  next
    case False
    then show ?thesis
      using Cons.IH [of "insert (uid a) su" "insert (title_key a) st"] fresh
      by (simp add: dedup_loop_Cons image_iff) metis
  qed
qed

lemma dedup_loop_fixed:
  "\<lbrakk>\<forall>y \<in> set ys. uid y \<notin> su \<and> title_key y \<notin> st;
    distinct (map uid ys); distinct (map title_key ys)\<rbrakk>
   \<Longrightarrow> dedup_loop su st [] ys = ys"
proof (induction ys arbitrary: su st)
  case Nil
  show ?case by simp
next
  case (Cons a ys)
  have "\<forall>y \<in> set ys. uid y \<notin> insert (uid a) su \<and> title_key y \<notin> insert (title_key a) st"
    using Cons.prems by (auto simp: image_iff)
  moreover have "distinct (map uid ys)" "distinct (map title_key ys)"
    using Cons.prems by simp_all
  ultimately have "dedup_loop (insert (uid a) su) (insert (title_key a) st) [] ys = ys"
    by (rule Cons.IH)
  then show ?case using Cons.prems by (simp add: dedup_loop_Cons)
qed

lemma dedup_loop_subseq: "subseq (dedup_loop su st [] xs) xs"
proof (induction xs arbitrary: su st)
  case Nil
  show ?case by simp
next
  case (Cons a xs)
  show ?case using Cons.IH by (auto simp: dedup_loop_Cons)
qed

lemma deduplicate_idem: "deduplicate (deduplicate xs) = deduplicate xs"
  unfolding deduplicate_def
  using dedup_loop_fresh [of _ "{}" "{}" xs] dedup_loop_distinct [of "{}" "{}" xs]
  by (intro dedup_loop_fixed) auto

lemma deduplicate_append:
  "deduplicate (xs @ zs) =
     deduplicate xs
     @ dedup_loop (uid ` set (deduplicate xs)) (title_key ` set (deduplicate xs)) [] zs"
  unfolding deduplicate_def using dedup_loop_append [of "{}" "{}" xs zs] by simp

section \<open>Categorisation\<close>

text \<open>
  \<open>CATEGORY_KEYWORDS\<close>, in the order of the dict literal, which is the order in which
  Python iterates over it. The labels and the Chinese keywords are given by their code
  points.
\<close>

definition CATEGORY_KEYWORDS :: "(ustr \<times> ustr list) list" where
  "CATEGORY_KEYWORDS =
     [(ucs [128293, 32, 37325, 22823, 21457, 24067],
       [u ''launch'', u ''release'', u ''announce'', ucs [21457, 24067], ucs [25512, 20986],
        ucs [19978, 32447], u ''GPT'', u ''Claude'', u ''Gemini'', u ''Llama'', u ''DeepSeek'']),
      (ucs [128300, 32, 30740, 31350, 31361, 30772],
       [u ''research'', u ''paper'', u ''study'', u ''breakthrough'', ucs [35770, 25991],
        ucs [30740, 31350], ucs [31361, 30772], u ''benchmark'', u ''SOTA'']),
      (ucs [128176, 32, 20135, 19994, 21160, 24577],
       [u ''funding'', u ''acquisition'', u ''invest'', u ''IPO'', ucs [34701, 36164],
        ucs [25910, 36141], ucs [24066, 22330], ucs [20272, 20540], u ''partnership'',
        ucs [21512, 20316]]),
      (ucs [128736, 65039, 32, 24037, 20855, 19982, 24212, 29992],
       [u ''tool'', u ''framework'', u ''open source'', u ''API'', u ''SDK'',
        ucs [24320, 28304], ucs [24037, 20855], ucs [24212, 29992], u ''plugin'', u ''agent'']),
      (ucs [127757, 32, 25919, 31574, 19982, 20262, 29702],
       [u ''regulation'', u ''policy'', u ''safety'', u ''ethic'', ucs [30417, 31649],
        ucs [25919, 31574], ucs [23433, 20840], ucs [20262, 29702], ucs [27861, 35268]])]"

definition default_category :: ustr where
  "default_category = ucs [128240, 32, 32508, 21512, 36164, 35759]"

text \<open>\<open>sum(1 for kw in keywords if kw.lower() in text)\<close>\<close>

definition score :: "ustr \<Rightarrow> ustr list \<Rightarrow> nat" where
  "score text keywords = length (filter (\<lambda>kw. str_in (lower kw) text) keywords)"

text \<open>
  \<open>max(scores, key=scores.get)\<close> goes through the keys in order and replaces the best
  so far only by a key with a strictly larger score.
\<close>

fun max_key :: "'k \<times> nat \<Rightarrow> ('k \<times> nat) list \<Rightarrow> 'k \<times> nat" where
  "max_key best [] = best"
| "max_key best (x # xs) = max_key (if snd x > snd best then x else best) xs"

definition article_text :: "NewsArticle \<Rightarrow> ustr" where
  "article_text article = lower (title article @ u '' '' @ summary article)"

definition scores :: "NewsArticle \<Rightarrow> (ustr \<times> nat) list" where
  "scores article =
     map (\<lambda>(cat, keywords). (cat, score (article_text article) keywords)) CATEGORY_KEYWORDS"

text \<open>
  \<open>_categorize\<close>. \<open>max\<close> of an empty dict would raise; the table is a constant with
  five entries, so the first branch of the case is never taken.
\<close>

definition categorize :: "NewsArticle \<Rightarrow> ustr" where
  "categorize article =
     (case scores article of
        [] \<Rightarrow> default_category
      | s # ss \<Rightarrow>
          let best = max_key s ss
          in if snd best > 0 then fst best else default_category)"

lemma max_key_first:
  "\<exists>ps qs. b # xs = ps @ max_key b xs # qs
     \<and> (\<forall>p \<in> set ps. snd p < snd (max_key b xs))
     \<and> (\<forall>q \<in> set qs. snd q \<le> snd (max_key b xs))"
proof (induction xs arbitrary: b)
  case Nil
  show ?case by (intro exI [of _ "[]"]) simp
next
  case (Cons x xs)
  define b' where "b' = (if snd x > snd b then x else b)"
  define r where "r = max_key b' xs"
  have r: "max_key b (x # xs) = r" by (simp add: r_def b'_def)
  obtain ps qs where d: "b' # xs = ps @ r # qs"
    and lt: "\<forall>p \<in> set ps. snd p < snd r" and le: "\<forall>q \<in> set qs. snd q \<le> snd r"
    using Cons.IH [of b'] unfolding r_def by blast
  have ge: "snd b' \<le> snd r"
  proof (cases ps)
    case Nil
    then show ?thesis using d by simp
  next
    case (Cons p ps')
    then have "p = b'" using d by simp
    then show ?thesis using lt Cons by (simp add: less_imp_le)
  qed
  show ?case
  proof (cases "snd x > snd b")
    case True
    then have "b' = x" by (simp add: b'_def)
    then have "b # x # xs = (b # ps) @ r # qs" using d by simp
    moreover have "\<forall>p \<in> set (b # ps). snd p < snd r"
      using lt ge True \<open>b' = x\<close> by auto
    ultimately show ?thesis unfolding r using le by blast
  next
    case False
    then have b: "b' = b" by (simp add: b'_def)
    show ?thesis
    proof (cases ps)
      case Nil
      then have "b # x # xs = [] @ r # (x # qs)" using d b by simp
      moreover have "\<forall>q \<in> set (x # qs). snd q \<le> snd r" using le ge False b by auto
      moreover have "\<forall>p \<in> set []. snd p < snd r" by simp
      ultimately show ?thesis unfolding r by blast
    next
      case (Cons p ps')
      then have "b # x # xs = (b # x # ps') @ r # qs" and "p = b" using d b by auto
      moreover have "\<forall>p \<in> set (b # x # ps'). snd p < snd r"
        using lt Cons False \<open>p = b\<close> by auto
      ultimately show ?thesis unfolding r using le by blast
    qed
  qed
qed

lemma categorize_scores:
  "categorize a = default_category \<and> (\<forall>p \<in> set (scores a). snd p = 0)
   \<or> (\<exists>ps r qs. scores a = ps @ r # qs \<and> categorize a = fst r \<and> 0 < snd r
         \<and> (\<forall>p \<in> set ps. snd p < snd r) \<and> (\<forall>q \<in> set qs. snd q \<le> snd r))"
proof (cases "scores a")
  case Nil
  then show ?thesis by (simp add: categorize_def)
next
  case (Cons s ss)
  define r where "r = max_key s ss"
  obtain ps qs where d: "s # ss = ps @ r # qs"
    and lt: "\<forall>p \<in> set ps. snd p < snd r" and le: "\<forall>q \<in> set qs. snd q \<le> snd r"
    using max_key_first [of s ss] unfolding r_def by blast
  have c: "categorize a = (if snd r > 0 then fst r else default_category)"
    by (simp add: categorize_def Cons r_def)
  show ?thesis
  proof (cases "snd r > 0")
    case True
    have "scores a = ps @ r # qs \<and> categorize a = fst r \<and> 0 < snd r
         \<and> (\<forall>p \<in> set ps. snd p < snd r) \<and> (\<forall>q \<in> set qs. snd q \<le> snd r)"
      using True c d lt le Cons by simp
    then show ?thesis by blast
  next
    case False
    then have "\<forall>p \<in> set (ps @ r # qs). snd p = 0" using lt le by auto
    then show ?thesis using c False d Cons by simp
  qed
qed

lemma scores_release:
  "title a = u ''OpenAI releases GPT-5 today'' \<Longrightarrow> summary a = [] \<Longrightarrow>
   map snd (scores a) = [2, 0, 0, 0, 0]"
  by (simp add: scores_def score_def article_text_def CATEGORY_KEYWORDS_def 
    u_ucs lower_ucs append_ucs str_in_ucs scalar_def lower_nat_def)

lemma scores_office:
  "title a = u ''quarterly report on office supplies'' \<Longrightarrow> summary a = [] \<Longrightarrow>
   map snd (scores a) = [0, 0, 0, 0, 0]"
  by (simp add: scores_def score_def article_text_def CATEGORY_KEYWORDS_def 
    u_ucs lower_ucs append_ucs str_in_ucs scalar_def lower_nat_def)

lemma scores_fst: "map fst (scores a) = map fst CATEGORY_KEYWORDS"
  by (simp add: scores_def case_prod_unfold comp_def)

lemma categorize_release:
  assumes "title a = u ''OpenAI releases GPT-5 today''" "summary a = []"
  shows "categorize a = ucs [128293, 32, 37325, 22823, 21457, 24067]"
proof -
  have "scores a = zip (map fst (scores a)) (map snd (scores a))" by (simp add: zip_map_fst_snd)
  then have "scores a = zip (map fst CATEGORY_KEYWORDS) [2, 0, 0, 0, 0]"
    using scores_release [OF assms] scores_fst by simp
  then show ?thesis by (simp add: categorize_def CATEGORY_KEYWORDS_def)
qed

lemma categorize_office:
  assumes "title a = u ''quarterly report on office supplies''" "summary a = []"
  shows "categorize a = default_category"
proof -
  have "scores a = zip (map fst (scores a)) (map snd (scores a))" by (simp add: zip_map_fst_snd)
  then have "scores a = zip (map fst CATEGORY_KEYWORDS) [0, 0, 0, 0, 0]"
    using scores_office [OF assms] scores_fst by simp
  then show ?thesis by (simp add: categorize_def CATEGORY_KEYWORDS_def)
qed

section \<open>Text extraction\<close>

text \<open>
  \<open>_extract_text(element, max_len=300)\<close>. The element is given by what the function
  reads of it: \<open>None\<close> for a missing element, otherwise the string that
  \<open>element.get_text(strip=True)\<close> returns. The ellipsis marker is three full stops.
\<close>

definition ellipsis :: ustr where
  "ellipsis = u ''...''"

definition extract_text :: "ustr option \<Rightarrow> int \<Rightarrow> ustr" where
  "extract_text element max_len =
     (case element of
        None \<Rightarrow> []
      | Some text \<Rightarrow>
          if int (length text) > max_len then slice_to max_len text @ ellipsis else text)"

section \<open>Dates\<close>

datatype error = ValueError | RuntimeError | RequestError

text \<open>
  A \<open>datetime\<close>. \<open>utcoffset\<close> is \<open>None\<close> for a naive value and the offset from UTC in
  microseconds for an aware one.
\<close>

record datetime =
  year :: nat
  month :: nat
  day :: nat
  hour :: nat
  minute :: nat
  second :: nat
  microsecond :: nat
  utcoffset :: "int option"

definition is_leap :: "nat \<Rightarrow> bool" where
  "is_leap y = (y mod 4 = 0 \<and> (y mod 100 \<noteq> 0 \<or> y mod 400 = 0))"

definition days_in_month :: "nat \<Rightarrow> nat \<Rightarrow> nat" where
  "days_in_month y m =
     (if m = 2 then (if is_leap y then 29 else 28)
      else if m = 4 \<or> m = 6 \<or> m = 9 \<or> m = 11 then 30 else 31)"

text \<open>
  The constructor \<open>datetime(y, m, d)\<close>: it raises \<open>ValueError\<close> for a year outside
  \<open>1 .. 9999\<close>, a month outside \<open>1 .. 12\<close> or a day the month does not have.
\<close>

definition datetime_ymd :: "nat \<Rightarrow> nat \<Rightarrow> nat \<Rightarrow> error + datetime" where
  "datetime_ymd y m d =
     (if 1 \<le> y \<and> y \<le> 9999 \<and> 1 \<le> m \<and> m \<le> 12 \<and> 1 \<le> d \<and> d \<le> days_in_month y m
      then Inr \<lparr>year = y, month = m, day = d, hour = 0, minute = 0, second = 0,
                microsecond = 0, utcoffset = None\<rparr>
      else Inl ValueError)"

text \<open>
  The two regular expressions. \<open>\d\<close> is modelled on the ASCII digits; the decimal
  digits of other scripts are outside the model. A pattern is a matcher on the text
  that starts at a position: it returns the groups, or \<open>None\<close>. The rest of the
  pattern is the continuation \<open>k\<close>, so that \<open>\d{1,2}\<close> takes two digits first and one
  digit if the rest does not match after two.
\<close>

definition isdigit :: "uchar \<Rightarrow> bool" where
  "isdigit c = (48 \<le> cp c \<and> cp c \<le> 57)"

definition int_of_digits :: "ustr \<Rightarrow> nat" where
  "int_of_digits ds = fold (\<lambda>c n. 10 * n + (cp c - 48)) ds 0"

definition lit :: "(uchar \<Rightarrow> bool) \<Rightarrow> (ustr \<Rightarrow> 'a option) \<Rightarrow> ustr \<Rightarrow> 'a option" where
  "lit p k s = (case s of [] \<Rightarrow> None | c # r \<Rightarrow> if p c then k r else None)"

fun digits12 :: "(ustr \<Rightarrow> 'a option) \<Rightarrow> ustr \<Rightarrow> (ustr \<times> 'a) option" where
  "digits12 k [] = None"
| "digits12 k [d1] = (if isdigit d1 then map_option (Pair [d1]) (k []) else None)"
| "digits12 k (d1 # d2 # r) =
     (if isdigit d1 then
        (case (if isdigit d2 then k r else None) of
           Some x \<Rightarrow> Some ([d1, d2], x)
         | None \<Rightarrow> map_option (Pair [d1]) (k (d2 # r)))
      else None)"

definition year20 :: "(ustr \<Rightarrow> 'a option) \<Rightarrow> ustr \<Rightarrow> (ustr \<times> 'a) option" where
  "year20 k s =
     (case s of
        c1 # c2 # c3 # c4 # r \<Rightarrow>
          if cp c1 = 50 \<and> cp c2 = 48 \<and> isdigit c3 \<and> isdigit c4
          then map_option (Pair [c1, c2, c3, c4]) (k r) else None
      | _ \<Rightarrow> None)"

definition is_sep :: "uchar \<Rightarrow> bool" where
  "is_sep c = (cp c = 46 \<or> cp c = 47 \<or> cp c = 45)"

definition matched :: "ustr \<Rightarrow> unit option" where
  "matched s = Some ()"

text \<open>\<open>(20\d{2})[./-](\d{1,2})[./-](\d{1,2})\<close>\<close>

definition match_numeric :: "ustr \<Rightarrow> (ustr \<times> ustr \<times> ustr) option" where
  "match_numeric s =
     map_option (\<lambda>(y, m, d, _). (y, m, d))
       (year20 (lit is_sep (digits12 (lit is_sep (digits12 matched)))) s)"

text \<open>The same with the characters for year (U+5E74), month (U+6708) and day (U+65E5).\<close>

definition match_chinese :: "ustr \<Rightarrow> (ustr \<times> ustr \<times> ustr) option" where
  "match_chinese s =
     map_option (\<lambda>(y, m, d, _). (y, m, d))
       (year20 (lit (\<lambda>c. cp c = 24180)
          (digits12 (lit (\<lambda>c. cp c = 26376) (digits12 (lit (\<lambda>c. cp c = 26085) matched))))) s)"

text \<open>\<open>re.search\<close>: the match at the leftmost position that has one.\<close>

fun re_search :: "(ustr \<Rightarrow> 'a option) \<Rightarrow> ustr \<Rightarrow> 'a option" where
  "re_search m [] = m []"
| "re_search m (c # cs) = (case m (c # cs) of Some r \<Rightarrow> Some r | None \<Rightarrow> re_search m cs)"

text \<open>\<open>raw.replace("Z", "+00:00")\<close>\<close>

definition replace_Z :: "ustr \<Rightarrow> ustr" where
  "replace_Z raw = concat (map (\<lambda>c. if cp c = 90 then u ''+00:00'' else [c]) raw)"

definition from_groups :: "ustr \<times> ustr \<times> ustr \<Rightarrow> error + datetime option" where
  "from_groups g =
     (case g of (y, m, d) \<Rightarrow>
        case datetime_ymd (int_of_digits y) (int_of_digits m) (int_of_digits d) of
          Inl e \<Rightarrow> Inl e
        | Inr dt \<Rightarrow> Inr (Some dt))"

text \<open>
  \<open>_parse_datetime\<close>. \<open>datetime.fromisoformat\<close> is the work of the Python library and
  differs between its versions: it is a parameter, which gives \<open>None\<close> where the library
  raises (the source catches every exception of that call). The two calls of the
  constructor \<open>datetime(...)\<close> stand outside the \<open>try\<close>.
\<close>

definition parse_datetime :: "(ustr \<Rightarrow> datetime option) \<Rightarrow> ustr \<Rightarrow> error + datetime option" where
  "parse_datetime fromiso text =
     (if text = [] then Inr None
      else let raw = strip text in
        if raw = [] then Inr None
        else case fromiso (replace_Z raw) of
          Some dt \<Rightarrow> Inr (Some dt)
        | None \<Rightarrow>
            (case re_search match_numeric raw of
               Some g \<Rightarrow> from_groups g
             | None \<Rightarrow>
                 (case re_search match_chinese raw of
                    Some g \<Rightarrow> from_groups g
                  | None \<Rightarrow> Inr None)))"

text \<open>\<open>datetime.isoformat()\<close>\<close>

definition pad :: "nat \<Rightarrow> nat \<Rightarrow> ustr" where
  "pad w n = map (\<lambda>i. uc (48 + (n div 10 ^ (w - 1 - i)) mod 10)) [0..<w]"

definition format_offset :: "int \<Rightarrow> ustr" where
  "format_offset off =
     (let a = nat \<bar>off\<bar>;
          hh = a div 3600000000; mm = (a div 60000000) mod 60;
          ss = (a div 1000000) mod 60; us = a mod 1000000
      in (if off < 0 then u ''-'' else u ''+'') @ pad 2 hh @ u '':'' @ pad 2 mm
         @ (if ss \<noteq> 0 \<or> us \<noteq> 0 then u '':'' @ pad 2 ss else [])
         @ (if us \<noteq> 0 then u ''.'' @ pad 6 us else []))"

definition isoformat :: "datetime \<Rightarrow> ustr" where
  "isoformat dt =
     pad 4 (year dt) @ u ''-'' @ pad 2 (month dt) @ u ''-'' @ pad 2 (day dt) @ u ''T''
     @ pad 2 (hour dt) @ u '':'' @ pad 2 (minute dt) @ u '':'' @ pad 2 (second dt)
     @ (if microsecond dt \<noteq> 0 then u ''.'' @ pad 6 (microsecond dt) else [])
     @ (case utcoffset dt of None \<Rightarrow> [] | Some off \<Rightarrow> format_offset off)"

section \<open>Completing the date of an article\<close>

text \<open>
  A fetched page, by what \<open>_extract_published_from_soup\<close> reads of it: its \<open>meta\<close>
  elements in document order, each with its \<open>property\<close>, \<open>name\<close> and \<open>content\<close>
  attributes, and its first \<open>time\<close> element with its \<open>datetime\<close> and \<open>content\<close>
  attributes and its stripped text.
\<close>

record meta_tag =
  meta_property :: "ustr option"
  meta_name :: "ustr option"
  meta_content :: "ustr option"

record time_tag =
  time_datetime :: "ustr option"
  time_content :: "ustr option"
  time_text :: ustr

record soup =
  metas :: "meta_tag list"
  time_el :: "time_tag option"

definition meta_keys :: "ustr list" where
  "meta_keys =
     [u ''article:published_time'', u ''og:published_time'', u ''publish_date'', u ''pubdate'',
      u ''date'', u ''datePublished'', u ''article:modified_time'']"

text \<open>\<open>x or y\<close> on optional strings: \<open>x\<close> if it is a non-empty string, else \<open>y\<close>.\<close>

definition py_or :: "ustr option \<Rightarrow> ustr option \<Rightarrow> ustr option" where
  "py_or x y = (case x of None \<Rightarrow> y | Some s \<Rightarrow> if s = [] then y else Some s)"

fun scan_metas :: "meta_tag list \<Rightarrow> ustr option" where
  "scan_metas [] = None"
| "scan_metas (m # ms) =
     (case py_or (meta_property m) (meta_name m) of
        None \<Rightarrow> scan_metas ms
      | Some key \<Rightarrow>
          if key \<in> set meta_keys then
            (let content = strip (case meta_content m of None \<Rightarrow> [] | Some c \<Rightarrow> c)
             in if content \<noteq> [] then Some content else scan_metas ms)
          else scan_metas ms)"

definition extract_published_from_soup :: "soup \<Rightarrow> ustr" where
  "extract_published_from_soup sp =
     (case scan_metas (metas sp) of
        Some content \<Rightarrow> content
      | None \<Rightarrow>
          (case time_el sp of
             None \<Rightarrow> []
           | Some t \<Rightarrow>
               (case py_or (py_or (time_datetime t) (time_content t)) (Some (time_text t)) of
                  None \<Rightarrow> []
                | Some v \<Rightarrow> v)))"

text \<open>
  \<open>_enrich_published_at\<close>. The source changes the article in place and returns the
  date; the model returns the article as it is afterwards together with the date.
  \<open>fetch\<close> is \<open>_fetch_page\<close>: the page at a url, or \<open>None\<close> where the request or the
  parse fails.
\<close>

definition enrich_published_at ::
  "(ustr \<Rightarrow> datetime option) \<Rightarrow> (ustr \<Rightarrow> soup option) \<Rightarrow> NewsArticle
   \<Rightarrow> error + (NewsArticle \<times> datetime option)" where
  "enrich_published_at fromiso fetch article =
     (case parse_datetime fromiso (case published_at article of None \<Rightarrow> [] | Some s \<Rightarrow> s) of
        Inl e \<Rightarrow> Inl e
      | Inr dt0 \<Rightarrow>
          (case (if dt0 = None then
                   (case fetch (url article) of
                      None \<Rightarrow> Inr None
                    | Some sp \<Rightarrow> parse_datetime fromiso (extract_published_from_soup sp))
                 else Inr dt0) of
             Inl e \<Rightarrow> Inl e
           | Inr None \<Rightarrow> Inr (article, None)
           | Inr (Some dt) \<Rightarrow>
               Inr (article\<lparr>published_at := Some (isoformat dt)\<rparr>, Some dt)))"

section \<open>The crawl\<close>

text \<open>
  What a run reads of its surroundings: the configuration, the network
  (\<open>fetch_page\<close>), the extractors, which read the document tree through the HTML
  library and are taken as functions from a page to its candidates, the search, the
  library's ISO parser and the clock (\<open>is_today\<close>).
\<close>

record env =
  NEWS_SOURCES :: "(ustr \<times> ustr) list"
  SEARCH_QUERIES :: "ustr list"
  NEWS_MAX_ARTICLES :: int
  NEWS_TODAY_ONLY :: bool
  fetch_page :: "ustr \<Rightarrow> soup option"
  extract_jiqizhixin :: "soup \<Rightarrow> NewsArticle list"
  extract_qbitai :: "soup \<Rightarrow> NewsArticle list"
  extract_articles_generic :: "soup \<Rightarrow> ustr \<Rightarrow> ustr \<Rightarrow> NewsArticle list"
  search_web_news :: "ustr \<Rightarrow> NewsArticle list"
  fromisoformat :: "ustr \<Rightarrow> datetime option"
  is_today :: "datetime \<Rightarrow> bool"

text \<open>\<open>_filter_today_articles\<close>\<close>

fun filter_today_articles :: "env \<Rightarrow> NewsArticle list \<Rightarrow> error + NewsArticle list" where
  "filter_today_articles e [] = Inr []"
| "filter_today_articles e (a # articles) =
     (case enrich_published_at (fromisoformat e) (fetch_page e) a of
        Inl err \<Rightarrow> Inl err
      | Inr (a', dt) \<Rightarrow>
          (case filter_today_articles e articles of
             Inl err \<Rightarrow> Inl err
           | Inr kept \<Rightarrow>
               Inr (case dt of
                      None \<Rightarrow> kept
                    | Some d \<Rightarrow> if is_today e d then a' # kept else kept)))"

text \<open>Steps 1 and 2 of \<open>crawl_ai_news\<close>: the candidates of the sources, then of the searches.\<close>

definition crawl_source :: "env \<Rightarrow> ustr \<times> ustr \<Rightarrow> NewsArticle list" where
  "crawl_source e src =
     (case src of (name, link) \<Rightarrow>
        case fetch_page e link of
          None \<Rightarrow> []
        | Some sp \<Rightarrow>
            if str_in (u ''jiqizhixin'') link then extract_jiqizhixin e sp
            else if str_in (u ''qbitai'') link then extract_qbitai e sp
            else extract_articles_generic e sp link name)"

definition all_articles :: "env \<Rightarrow> NewsArticle list" where
  "all_articles e =
     concat (map (crawl_source e) (NEWS_SOURCES e))
     @ concat (map (search_web_news e) (take 3 (SEARCH_QUERIES e)))"

text \<open>Steps 3 to 5: the articles that survive, each with its category.\<close>

definition survivors :: "env \<Rightarrow> error + NewsArticle list" where
  "survivors e =
     (case (if NEWS_TODAY_ONLY e then filter_today_articles e (deduplicate (all_articles e))
            else Inr (deduplicate (all_articles e))) of
        Inl err \<Rightarrow> Inl err
      | Inr unique_articles \<Rightarrow>
          Inr (map (\<lambda>article. article\<lparr>category := categorize article\<rparr>) unique_articles))"

text \<open>\<open>crawl_ai_news\<close>: \<open>max_articles or NEWS_MAX_ARTICLES\<close>, then the slice of step 6.\<close>

definition crawl_ai_news :: "env \<Rightarrow> int \<Rightarrow> error + NewsArticle list" where
  "crawl_ai_news e max_articles =
     (let cap = (if max_articles \<noteq> 0 then max_articles else NEWS_MAX_ARTICLES e)
      in case survivors e of
           Inl err \<Rightarrow> Inl err
         | Inr unique_articles \<Rightarrow> Inr (slice_to cap unique_articles))"

section \<open>The publishing pipeline\<close>

text \<open>
  \<open>run_pipeline\<close>. The calls to the document service are what the run does to the
  outside; the model returns the list of the calls made, in order, next to the result.
  The service, the two renderers (\<open>_build_feishu_blocks\<close>, \<open>_build_group_text\<close>)
  and the date label of the clock are given by a record: each call of the service either
  fails with an exception or gives its value. \<open>get_document_root_block\<close> returns the
  id of the document itself.
\<close>

datatype block = Heading nat ustr | Text ustr | Link ustr ustr | Divider | Bullet ustr

datatype call =
    CreateDocument ustr
  | WriteBlocks ustr ustr "block list"
  | FindChatIdByName ustr
  | SendGroupMessage ustr ustr

datatype group_result = GroupSkipped | GroupOk ustr | GroupError

text \<open>
  The dict that \<open>run_pipeline\<close> returns: \<open>Empty\<close> is
  \<open>{"status": "empty", "article_count": 0}\<close>; \<open>DryRun n xs\<close> has the status
  \<open>dry_run\<close>, the count and the title, url and category of each article; \<open>Ok\<close> has the
  url and the id of the document, the count and the result of the group message.
\<close>

datatype result =
    Empty
  | DryRun nat "(ustr \<times> ustr \<times> ustr) list"
  | Ok ustr ustr nat group_result

fun status_of :: "result \<Rightarrow> ustr" where
  "status_of Empty = u ''empty''"
| "status_of (DryRun n xs) = u ''dry_run''"
| "status_of (Ok doc_url doc_id n g) = u ''ok''"

fun article_count_of :: "result \<Rightarrow> nat" where
  "article_count_of Empty = 0"
| "article_count_of (DryRun n xs) = n"
| "article_count_of (Ok doc_url doc_id n g) = n"

record feishu =
  client_init :: "error option"
  create_document :: "ustr \<Rightarrow> error + (ustr \<times> ustr)"
  write_blocks :: "ustr \<Rightarrow> ustr \<Rightarrow> block list \<Rightarrow> error option"
  find_chat_id_by_name :: "ustr \<Rightarrow> error + ustr option"
  send_group_message :: "ustr \<Rightarrow> ustr \<Rightarrow> error option"
  FEISHU_GROUP_CHAT_ID :: ustr
  FEISHU_GROUP_NAME :: ustr
  build_feishu_blocks :: "NewsArticle list \<Rightarrow> ustr \<Rightarrow> block list"
  build_group_text :: "NewsArticle list \<Rightarrow> ustr \<Rightarrow> ustr \<Rightarrow> ustr"
  date_str :: ustr

text \<open>The batches \<open>blocks[i : i + 50]\<close> for \<open>i\<close> in \<open>range(0, len(blocks), 50)\<close>.\<close>

definition batches :: "block list \<Rightarrow> block list list" where
  "batches blocks =
     map (\<lambda>i. take 50 (drop (50 * i) blocks)) [0..<(length blocks + 49) div 50]"

fun write_batches :: "feishu \<Rightarrow> ustr \<Rightarrow> ustr \<Rightarrow> block list list \<Rightarrow> error option \<times> call list" where
  "write_batches f doc_id root [] = (None, [])"
| "write_batches f doc_id root (b # bs) =
     (case write_blocks f doc_id root b of
        Some err \<Rightarrow> (Some err, [WriteBlocks doc_id root b])
      | None \<Rightarrow>
          (case write_batches f doc_id root bs of
             (r, calls) \<Rightarrow> (r, WriteBlocks doc_id root b # calls)))"

text \<open>Phase 4: the chat id from the configuration or by the name of the group, then the message.\<close>

definition send_to_group ::
  "feishu \<Rightarrow> NewsArticle list \<Rightarrow> ustr \<Rightarrow> group_result \<times> call list" where
  "send_to_group f arts link =
     (let (chat_id, calls) =
            (if FEISHU_GROUP_CHAT_ID f = [] \<and> FEISHU_GROUP_NAME f \<noteq> [] then
               (case find_chat_id_by_name f (FEISHU_GROUP_NAME f) of
                  Inr (Some c) \<Rightarrow> (c, [FindChatIdByName (FEISHU_GROUP_NAME f)])
                | _ \<Rightarrow> ([], [FindChatIdByName (FEISHU_GROUP_NAME f)]))
             else (FEISHU_GROUP_CHAT_ID f, []))
      in if chat_id \<noteq> [] then
           (let group_text = build_group_text f arts link (date_str f)
            in case send_group_message f chat_id group_text of
                 None \<Rightarrow> (GroupOk chat_id, calls @ [SendGroupMessage chat_id group_text])
               | Some err \<Rightarrow> (GroupError, calls @ [SendGroupMessage chat_id group_text]))
         else (GroupSkipped, calls))"

definition doc_title :: "ustr \<Rightarrow> ustr" where
  "doc_title d = ucs [128240, 32, 65, 73, 32, 31185, 25216, 26085, 25253, 32, 8212, 32] @ d"

definition run_pipeline :: "env \<Rightarrow> feishu \<Rightarrow> bool \<Rightarrow> (error + result) \<times> call list" where
  "run_pipeline e f dry_run =
     (case crawl_ai_news e 0 of
        Inl err \<Rightarrow> (Inl err, [])
      | Inr arts \<Rightarrow>
          if arts = [] then (Inr Empty, [])
          else if dry_run then
            (Inr (DryRun (length arts) (map (\<lambda>a. (title a, url a, category a)) arts)), [])
          else
            (case client_init f of
               Some err \<Rightarrow> (Inl err, [])
             | None \<Rightarrow>
                 (case create_document f (doc_title (date_str f)) of
                    Inl err \<Rightarrow> (Inl err, [CreateDocument (doc_title (date_str f))])
                  | Inr (doc_id, link) \<Rightarrow>
                      (case write_batches f doc_id doc_id
                              (batches (build_feishu_blocks f arts (date_str f))) of
                         (Some err, calls) \<Rightarrow>
                           (Inl err, CreateDocument (doc_title (date_str f)) # calls)
                       | (None, calls) \<Rightarrow>
                           (case send_to_group f arts link of
                              (g, calls') \<Rightarrow>
                                (Inr (Ok link doc_id (length arts) g),
                                 CreateDocument (doc_title (date_str f)) # calls @ calls'))))))"

section \<open>Concrete inputs\<close>

text \<open>
  A run whose sources are none and whose one search returns the given candidates, with
  the same-day filter off and the default maximum of 15.
\<close>

definition env_of :: "NewsArticle list \<Rightarrow> env" where
  "env_of candidates =
     \<lparr>NEWS_SOURCES = [], SEARCH_QUERIES = [u ''AI news today 2026''],
      NEWS_MAX_ARTICLES = 15, NEWS_TODAY_ONLY = False, fetch_page = (\<lambda>_. None),
      extract_jiqizhixin = (\<lambda>_. []), extract_qbitai = (\<lambda>_. []),
      extract_articles_generic = (\<lambda>_ _ _. []), search_web_news = (\<lambda>_. candidates),
      fromisoformat = (\<lambda>_. None), is_today = (\<lambda>_. False)\<rparr>"

text \<open>A document service on which every call succeeds, with a chat id configured.\<close>

definition feishu_ok :: feishu where
  "feishu_ok =
     \<lparr>client_init = None,
      create_document = (\<lambda>t. Inr (u ''doc1'', u ''https://feishu.cn/docx/doc1'')),
      write_blocks = (\<lambda>_ _ _. None),
      find_chat_id_by_name = (\<lambda>_. Inr None),
      send_group_message = (\<lambda>_ _. None),
      FEISHU_GROUP_CHAT_ID = u ''oc_1'', FEISHU_GROUP_NAME = [],
      build_feishu_blocks = (\<lambda>arts d. map (\<lambda>a. Heading 3 (title a)) arts),
      build_group_text = (\<lambda>arts link d. link),
      date_str = u ''2026-02-07''\<rparr>"

definition a1 :: NewsArticle where
  "a1 = art ''Breaking: new model released today'' ''https://example.com/a''"

definition b1 :: NewsArticle where
  "b1 = art ''Other headline of the same page'' ''https://example.com/a''"

definition c1 :: NewsArticle where
  "c1 = art ''Breaking: new model released (updated)'' ''https://example.com/c''"

definition c2 :: NewsArticle where
  "c2 = art ''Other headline of the same page, again'' ''https://example.com/c''"

definition stale :: NewsArticle where
  "stale = (art ''A story without a date'' ''https://example.com/s'')
             \<lparr>published_at := Some (u ''yesterday'')\<rparr>"

section \<open>Facts used by several claims\<close>

lemmas eval_date = parse_datetime_def strip_def isspace_def replace_Z_def match_numeric_def
  match_chinese_def year20_def lit_def isdigit_def is_sep_def matched_def from_groups_def
  int_of_digits_def datetime_ymd_def days_in_month_def is_leap_def ucs_def u_def cp_uc scalar_def

lemma all_articles_env_of: "all_articles (env_of xs) = xs"
  by (simp add: all_articles_def env_of_def)

lemma u_eq: "(u s = u t) = (s = t)"
proof -
  have "map cp (u s) = map of_char s" "map cp (u t) = map of_char t"
    by (simp_all add: u_def cp_uc scalar_of_char)
  moreover have "inj (of_char :: char \<Rightarrow> nat)" by (rule injI) simp
  ultimately show ?thesis by (metis inj_map_eq_map)
qed

lemma take_u: "take n (u s) = u (take n s)"
  by (simp add: u_def take_map)

lemma category_labels_nonempty: "\<forall>p \<in> set CATEGORY_KEYWORDS. fst p \<noteq> []"
  by (simp add: CATEGORY_KEYWORDS_def ucs_def)

lemma categorize_nonempty: "categorize a \<noteq> []"
proof -
  consider "categorize a = default_category"
    | ps r qs where "scores a = ps @ r # qs" "categorize a = fst r"
    using categorize_scores [of a] by blast
  then show ?thesis
  proof cases
    case 1
    then show ?thesis by (simp add: default_category_def ucs_def)
  next
    case 2
    then have "fst r \<in> set (map fst (scores a))" by simp
    then have "fst r \<in> set (map fst CATEGORY_KEYWORDS)" by (simp only: scores_fst)
    then show ?thesis using 2 category_labels_nonempty by auto
  qed
qed

lemma deduplicate3:
  "url a = url b \<Longrightarrow>
   deduplicate [a, b, c] =
     (if uid c = uid a \<or> title_key c = title_key a then [a] else [a, c])"
  by (simp add: deduplicate_def dedup_loop_Cons uid_def)

lemma title_key_prefix: "take 20 (title c) = take 20 (title a) \<Longrightarrow> title_key c = title_key a"
  by (simp add: title_key_def)

text \<open>The uids and the title keys of the concrete articles, computed.\<close>

lemma digest_url_a:
  "digest (md5 [104, 116, 116, 112, 115, 58, 47, 47, 101, 120, 97, 109, 112, 108, 101, 46,
                99, 111, 109, 47, 97])
   = [205, 105, 184, 30, 160, 12, 194, 121, 135, 151, 41, 60, 188, 146, 214, 67]"
  by code_simp

lemma digest_url_c:
  "digest (md5 [104, 116, 116, 112, 115, 58, 47, 47, 101, 120, 97, 109, 112, 108, 101, 46,
                99, 111, 109, 47, 99])
   = [51, 127, 228, 28, 10, 114, 36, 212, 72, 225, 250, 161, 189, 72, 172, 68]"
  by code_simp

lemma uid_a1: "uid a1 = u ''cd69b81ea00c''"
proof -
  have "encode (url a1) = [104, 116, 116, 112, 115, 58, 47, 47, 101, 120, 97, 109, 112, 108,
                           101, 46, 99, 111, 109, 47, 97]"
    by (simp add: a1_def art_def encode_def encode_char_def u_def cp_uc scalar_def)
  then show ?thesis
    by (simp add: uid_def hexdigest_def digest_url_a hex_byte_def hex_digit_def u_def)
qed

lemma uid_c2: "uid c2 = u ''337fe41c0a72''"
proof -
  have "encode (url c2) = [104, 116, 116, 112, 115, 58, 47, 47, 101, 120, 97, 109, 112, 108,
                           101, 46, 99, 111, 109, 47, 99]"
    by (simp add: c2_def art_def encode_def encode_char_def u_def cp_uc scalar_def)
  then show ?thesis
    by (simp add: uid_def hexdigest_def digest_url_c hex_byte_def hex_digit_def u_def)
qed

lemma title_key_a1: "title_key a1 = u ''breaking: new model''"
  by (simp add: title_key_def a1_def art_def strip_def isspace_def lower_def lower_char_def
        u_def cp_uc scalar_def)

lemma title_key_b1: "title_key b1 = u ''other headline of th''"
  by (simp add: title_key_def b1_def art_def strip_def isspace_def lower_def lower_char_def
        u_def cp_uc scalar_def)

lemma title_key_c2: "title_key c2 = u ''other headline of th''"
  by (simp add: title_key_def c2_def art_def strip_def isspace_def lower_def lower_char_def
        u_def cp_uc scalar_def)

text \<open>
  The part of the date parser that works as the specification says: the ISO parser is
  asked first, on the text with every \<open>Z\<close> replaced; the numeric pattern comes next and
  the Chinese one last; a text that matches nothing gives no date.
\<close>

lemma parse_datetime_iso_first:
  "text \<noteq> [] \<Longrightarrow> strip text \<noteq> [] \<Longrightarrow> fromiso (replace_Z (strip text)) = Some dt \<Longrightarrow>
   parse_datetime fromiso text = Inr (Some dt)"
  by (simp add: parse_datetime_def)

lemma isoformat_literals:
  "isoformat \<lparr>year = 2026, month = 2, day = 7, hour = 10, minute = 0, second = 0,
              microsecond = 0, utcoffset = Some 0\<rparr> = u ''2026-02-07T10:00:00+00:00''"
  "isoformat \<lparr>year = 2026, month = 2, day = 7, hour = 0, minute = 0, second = 0,
              microsecond = 0, utcoffset = None\<rparr> = u ''2026-02-07T00:00:00''"
  "isoformat \<lparr>year = 2026, month = 2, day = 7, hour = 10, minute = 0, second = 0,
              microsecond = 5, utcoffset = Some (- 19807000000)\<rparr>
     = u ''2026-02-07T10:00:00.000005-05:30:07''"
  by (simp_all add: isoformat_def pad_def format_offset_def u_ucs append_ucs ucs_def
        upt_rec [of _ "numeral _"])

lemma parse_datetime_literals:
  "fromiso (u ''2026-02-07T10:00:00+00:00'') = Some dt \<Longrightarrow>
     parse_datetime fromiso (u ''2026-02-07T10:00:00Z'') = Inr (Some dt)"
  "parse_datetime (\<lambda>_. None) (u ''2026-02-07'') =
     Inr (Some \<lparr>year = 2026, month = 2, day = 7, hour = 0, minute = 0, second = 0,
                microsecond = 0, utcoffset = None\<rparr>)"
  "parse_datetime (\<lambda>_. None) (ucs [50, 48, 50, 54, 24180, 48, 50, 26376, 48, 55, 26085]) =
     Inr (Some \<lparr>year = 2026, month = 2, day = 7, hour = 0, minute = 0, second = 0,
                microsecond = 0, utcoffset = None\<rparr>)"
  "parse_datetime (\<lambda>_. None) (u ''yesterday'') = Inr None"
  by (simp_all add: eval_date)

text \<open>A run with an article does publish: the model of the pipeline is not empty.\<close>

lemma run_pipeline_publishes:
  "run_pipeline (env_of [a1]) feishu_ok False =
     (Inr (Ok (u ''https://feishu.cn/docx/doc1'') (u ''doc1'') 1 (GroupOk (u ''oc_1''))),
      [CreateDocument (doc_title (u ''2026-02-07'')),
       WriteBlocks (u ''doc1'') (u ''doc1'') [Heading 3 (title a1)],
       SendGroupMessage (u ''oc_1'') (u ''https://feishu.cn/docx/doc1'')])"
proof -
  have s: "survivors (env_of [a1]) = Inr [a1\<lparr>category := categorize a1\<rparr>]"
    by (simp add: survivors_def all_articles_env_of deduplicate_def dedup_loop_Cons)
       (simp add: env_of_def)
  have c: "crawl_ai_news (env_of [a1]) 0 = Inr [a1\<lparr>category := categorize a1\<rparr>]"
    by (simp add: crawl_ai_news_def s slice_to_def) (simp add: env_of_def)
  have n: "u ''oc_1'' \<noteq> []" by (simp add: u_def)
  show ?thesis
    by (simp add: run_pipeline_def c feishu_ok_def batches_def send_to_group_def n)
qed

section \<open>Claims\<close>

text \<open>
  C6. For every extracted text and every maximum length (a length: not negative), a
  text longer than the maximum is cut to exactly the maximum number of characters and
  the ellipsis marker is appended; a text at or under the maximum is returned as it is.
  A text of 310 characters under the maximum 300 gives its first 300 characters
  followed by the marker, and a text of 50 characters is returned unchanged.
\<close>

theorem C6_extract_text_truncation:
  assumes "0 \<le> max_len"
  shows "(int (length text) > max_len \<longrightarrow>
            extract_text (Some text) max_len = take (nat max_len) text @ ellipsis
            \<and> length (take (nat max_len) text) = nat max_len)
         \<and> (int (length text) \<le> max_len \<longrightarrow> extract_text (Some text) max_len = text)
         \<and> (length text = 310 \<longrightarrow>
               extract_text (Some text) 300 = take 300 text @ u ''...''
               \<and> length (take 300 text) = 300
               \<and> length (extract_text (Some text) 300) = 303)
         \<and> (length text = 50 \<longrightarrow> extract_text (Some text) 300 = text)"
  using assms by (auto simp: extract_text_def slice_to_def ellipsis_def u_def)

theorem C6_extract_text_truncation_witness:
  "(0::int) \<le> 300
   \<and> extract_text (Some (replicate 310 (uc 97))) 300 = replicate 300 (uc 97) @ u ''...''
   \<and> extract_text (Some (replicate 50 (uc 97))) 300 = replicate 50 (uc 97)"
  using C6_extract_text_truncation [of 300 "replicate 310 (uc 97)"]
        C6_extract_text_truncation [of 300 "replicate 50 (uc 97)"]
  by (simp add: ellipsis_def)

text \<open>
  C4, as the code has it. Applying the deduplicator to its own output changes nothing.
  Its output keeps the order of the input (it is a subsequence of it); what was kept of
  a list stays kept, in place, whatever follows (prefix), and the first article of a
  list is always kept. An article appended to a list is discarded exactly when an
  article already kept has its uid or its title key: among kept articles the earlier
  one wins. An article that was discarded leaves no key behind, so it does not cause a
  later article to be discarded.
\<close>

theorem C4_deduplicate:
  "deduplicate (deduplicate xs) = deduplicate xs
   \<and> subseq (deduplicate xs) xs
   \<and> prefix (deduplicate xs) (deduplicate (xs @ zs))
   \<and> deduplicate (xs @ [a]) =
       deduplicate xs @
       (if \<exists>b \<in> set (deduplicate xs). uid b = uid a \<or> title_key b = title_key a
        then [] else [a])
   \<and> prefix [a] (deduplicate (a # zs))"
proof -
  have "prefix [a] (deduplicate (a # zs))"
    using deduplicate_append [of "[a]" zs]
    by (simp add: deduplicate_def dedup_loop_Cons)
  moreover have "deduplicate (xs @ [a]) =
       deduplicate xs @
       (if \<exists>b \<in> set (deduplicate xs). uid b = uid a \<or> title_key b = title_key a
        then [] else [a])"
    unfolding deduplicate_append by (auto simp: dedup_loop_Cons image_iff)
  moreover have "subseq (deduplicate xs) xs"
    unfolding deduplicate_def by (rule dedup_loop_subseq)
  moreover have "prefix (deduplicate xs) (deduplicate (xs @ zs))"
    unfolding deduplicate_append by simp
  ultimately show ?thesis using deduplicate_idem by blast
qed

theorem C4_deduplicate_witness:
  "deduplicate ([art ''First story'' ''https://example.com/a'']
                @ [art ''Other'' ''https://example.com/a''])
   = [art ''First story'' ''https://example.com/a'']"
  using C4_deduplicate [of "[art ''First story'' ''https://example.com/a'']" "[]"
                           "art ''Other'' ''https://example.com/a''"]
  by (simp add: deduplicate_def dedup_loop_Cons uid_def art_def)

text \<open>
  The claim as it is written fails. Of three articles the second has the url of the
  first and is discarded for it; the third has another url and the title key of the
  second. The second is the first article with that title key, and it is the third
  that is kept.
\<close>

theorem C4_counterexample:
  "deduplicate [a1, b1, c2] = [a1, c2]
   \<and> title_key b1 = title_key c2 \<and> title_key b1 \<noteq> title_key a1
   \<and> uid b1 = uid a1 \<and> uid c2 \<noteq> uid a1"
proof -
  have 1: "url a1 = url b1" by (simp add: a1_def b1_def art_def)
  then have 2: "uid b1 = uid a1" by (simp add: uid_def)
  have 3: "uid c2 \<noteq> uid a1" by (simp add: uid_a1 uid_c2 u_eq)
  have 4: "title_key c2 \<noteq> title_key a1" by (simp add: title_key_a1 title_key_c2 u_eq)
  have "deduplicate [a1, b1, c2] = [a1, c2]"
    using deduplicate3 [OF 1, of c2] 3 4 by simp
  then show ?thesis using 2 3 4 by (simp add: title_key_b1 title_key_c2)
qed

text \<open>
  C8. \<open>uid\<close> is a function of \<open>url\<close> alone: it is \<open>hash12\<close> of the url of the article
  as it is at the time of the access, twelve characters long, all of them lower-case
  hexadecimal digits; two articles with the same url have the same uid; changing any
  other field leaves it as it was, and changing the url changes it to \<open>hash12\<close> of
  the new url.
\<close>

theorem C8_uid_pure:
  "uid a = hash12 (url a)
   \<and> length (uid a) = 12
   \<and> (\<forall>c \<in> set (uid a). is_hex c)
   \<and> (url a = url b \<longrightarrow> uid a = uid b)
   \<and> uid (a\<lparr>title := t, summary := s, source := so, category := ca,
            published_at := p, tags := ts\<rparr>) = uid a
   \<and> uid (a\<lparr>url := v\<rparr>) = hash12 v"
  by (auto simp: uid_def hash12_def hexdigest_length dest: in_set_takeD hexdigest_is_hex)

theorem C8_uid_pure_witness:
  "url (art ''First story'' ''https://example.com/a'') = url (art ''Other'' ''https://example.com/a'')
   \<and> uid (art ''First story'' ''https://example.com/a'') = uid (art ''Other'' ''https://example.com/a'')
   \<and> length (uid (art ''First story'' ''https://example.com/a'')) = 12"
proof -
  have "url (art ''First story'' ''https://example.com/a'') = url (art ''Other'' ''https://example.com/a'')"
    by (simp add: art_def)
  then show ?thesis
    using C8_uid_pure [where a = "art ''First story'' ''https://example.com/a''"
                        and b = "art ''Other'' ''https://example.com/a''"]
    by blast
qed

text \<open>
  C5. The categoriser gives every category of the table, in the order of the table, the
  number of its keywords that occur, lower-cased, in the lower-cased title, a space and
  the summary. If every count is zero the result is the catch-all category. Otherwise
  the result is a category whose count is the largest, and the first such in the order
  of the table: the counts before it are strictly smaller. The title "OpenAI releases
  GPT-5 today" with an empty summary gives the first category of the table, the one
  whose keywords contain "release"; the title "quarterly report on office supplies"
  with an empty summary gives the catch-all category.
\<close>

theorem C5_categorize:
  "map fst (scores a) = map fst CATEGORY_KEYWORDS
   \<and> (\<forall>i < length CATEGORY_KEYWORDS.
        snd (scores a ! i) =
          length (filter (\<lambda>kw. str_in (lower kw) (lower (title a @ u '' '' @ summary a)))
                         (snd (CATEGORY_KEYWORDS ! i))))
   \<and> ((\<forall>p \<in> set (scores a). snd p = 0) \<longrightarrow> categorize a = default_category)
   \<and> ((\<exists>p \<in> set (scores a). snd p \<noteq> 0) \<longrightarrow>
        (\<exists>ps r qs. scores a = ps @ r # qs \<and> categorize a = fst r
           \<and> (\<forall>p \<in> set ps. snd p < snd r) \<and> (\<forall>q \<in> set qs. snd q \<le> snd r)))
   \<and> (title a = u ''OpenAI releases GPT-5 today'' \<and> summary a = [] \<longrightarrow>
        categorize a = fst (CATEGORY_KEYWORDS ! 0)
        \<and> u ''release'' \<in> set (snd (CATEGORY_KEYWORDS ! 0)))
   \<and> (title a = u ''quarterly report on office supplies'' \<and> summary a = [] \<longrightarrow>
        categorize a = default_category)"
proof -
  have 1: "\<forall>i < length CATEGORY_KEYWORDS.
        snd (scores a ! i) =
          length (filter (\<lambda>kw. str_in (lower kw) (lower (title a @ u '' '' @ summary a)))
                         (snd (CATEGORY_KEYWORDS ! i)))"
    by (simp add: scores_def score_def article_text_def case_prod_unfold)
  have 2: "(\<forall>p \<in> set (scores a). snd p = 0) \<longrightarrow> categorize a = default_category"
    using categorize_scores [of a] by fastforce
  have 3: "(\<exists>p \<in> set (scores a). snd p \<noteq> 0) \<longrightarrow>
        (\<exists>ps r qs. scores a = ps @ r # qs \<and> categorize a = fst r
           \<and> (\<forall>p \<in> set ps. snd p < snd r) \<and> (\<forall>q \<in> set qs. snd q \<le> snd r))"
  proof
    assume "\<exists>p \<in> set (scores a). snd p \<noteq> 0"
    then have "\<not> (\<forall>p \<in> set (scores a). snd p = 0)" by auto
    then obtain ps r qs where "scores a = ps @ r # qs \<and> categorize a = fst r
           \<and> (\<forall>p \<in> set ps. snd p < snd r) \<and> (\<forall>q \<in> set qs. snd q \<le> snd r)"
      using categorize_scores [of a] by blast
    then show "\<exists>ps r qs. scores a = ps @ r # qs \<and> categorize a = fst r
           \<and> (\<forall>p \<in> set ps. snd p < snd r) \<and> (\<forall>q \<in> set qs. snd q \<le> snd r)"
      by blast
  qed
  have 4: "title a = u ''OpenAI releases GPT-5 today'' \<and> summary a = [] \<longrightarrow>
        categorize a = fst (CATEGORY_KEYWORDS ! 0)
        \<and> u ''release'' \<in> set (snd (CATEGORY_KEYWORDS ! 0))"
    using categorize_release [of a] by (simp add: CATEGORY_KEYWORDS_def)
  show ?thesis using scores_fst 1 2 3 4 categorize_office [of a] by blast
qed

theorem C5_categorize_witness:
  "categorize (art ''OpenAI releases GPT-5 today'' ''https://example.com/a'')
     = ucs [128293, 32, 37325, 22823, 21457, 24067]
   \<and> categorize (art ''quarterly report on office supplies'' ''https://example.com/b'')
     = ucs [128240, 32, 32508, 21512, 36164, 35759]"
  using C5_categorize [of "art ''OpenAI releases GPT-5 today'' ''https://example.com/a''"]
        C5_categorize [of "art ''quarterly report on office supplies'' ''https://example.com/b''"]
  by (simp add: art_def CATEGORY_KEYWORDS_def default_category_def)




text \<open>
  C1, as the code has it. Take three candidates \<open>a\<close>, \<open>b\<close>, \<open>c\<close>, in this order, of
  which \<open>a\<close> and \<open>b\<close> have the same url, with the same-day filter off and a maximum
  of at least two. The pipeline keeps \<open>a\<close> and drops \<open>b\<close>. It drops \<open>c\<close> when the uid
  or the title key of \<open>c\<close> is that of \<open>a\<close>, and then one article is returned; this is
  so in particular when the titles of \<open>c\<close> and \<open>a\<close> have the same first 20
  characters. Otherwise it keeps \<open>c\<close> after \<open>a\<close> and two articles are returned. Every
  article returned has a category that is not empty.
\<close>

theorem C1_three_candidates:
  assumes "all_articles e = [a, b, c]" and "\<not> NEWS_TODAY_ONLY e" and "url a = url b"
    and "2 \<le> (if m \<noteq> 0 then m else NEWS_MAX_ARTICLES e)"
  shows "crawl_ai_news e m =
           Inr (if uid c = uid a \<or> title_key c = title_key a
                then [a\<lparr>category := categorize a\<rparr>]
                else [a\<lparr>category := categorize a\<rparr>, c\<lparr>category := categorize c\<rparr>])
         \<and> categorize a \<noteq> [] \<and> categorize c \<noteq> []
         \<and> (take 20 (title c) = take 20 (title a) \<longrightarrow>
              crawl_ai_news e m = Inr [a\<lparr>category := categorize a\<rparr>])"
proof -
  have s: "survivors e =
           Inr (if uid c = uid a \<or> title_key c = title_key a
                then [a\<lparr>category := categorize a\<rparr>]
                else [a\<lparr>category := categorize a\<rparr>, c\<lparr>category := categorize c\<rparr>])"
    using assms(1,2) deduplicate3 [OF assms(3), of c] by (simp add: survivors_def)
  have "crawl_ai_news e m =
           Inr (if uid c = uid a \<or> title_key c = title_key a
                then [a\<lparr>category := categorize a\<rparr>]
                else [a\<lparr>category := categorize a\<rparr>, c\<lparr>category := categorize c\<rparr>])"
    using assms(4) by (auto simp: crawl_ai_news_def s slice_to_def Let_def)
  then show ?thesis using categorize_nonempty title_key_prefix [of c a] by simp
qed

theorem C1_three_candidates_witness:
  "crawl_ai_news (env_of [a1, b1, c1]) 0 = Inr [a1\<lparr>category := categorize a1\<rparr>]"
proof -
  have "url a1 = url b1" by (simp add: a1_def b1_def art_def)
  moreover have "take 20 (title c1) = take 20 (title a1)"
    by (simp add: a1_def c1_def art_def take_u)
  moreover have "\<not> NEWS_TODAY_ONLY (env_of [a1, b1, c1])"
    "2 \<le> (if (0::int) \<noteq> 0 then 0 else NEWS_MAX_ARTICLES (env_of [a1, b1, c1]))"
    by (simp_all add: env_of_def)
  ultimately show ?thesis
    using C1_three_candidates [of "env_of [a1, b1, c1]" a1 b1 c1 0] all_articles_env_of
    by blast
qed

text \<open>
  The claim as it is written fails: the first two candidates share a url, the third has
  another url and the first 20 characters of the title of the first, and one article is
  returned, not two.
\<close>

theorem C1_counterexample:
  "all_articles (env_of [a1, b1, c1]) = [a1, b1, c1]
   \<and> url a1 = url b1 \<and> url c1 \<noteq> url a1
   \<and> take 20 (title c1) = take 20 (title a1)
   \<and> crawl_ai_news (env_of [a1, b1, c1]) 0 = Inr [a1\<lparr>category := categorize a1\<rparr>]
   \<and> length [a1\<lparr>category := categorize a1\<rparr>] \<noteq> 2"
proof -
  have 1: "url a1 = url b1" by (simp add: a1_def b1_def art_def)
  have 2: "url c1 \<noteq> url a1" by (simp add: a1_def c1_def art_def u_eq)
  have 3: "take 20 (title c1) = take 20 (title a1)"
    by (simp add: a1_def c1_def art_def take_u)
  have "deduplicate [a1, b1, c1] = [a1]"
    using deduplicate3 [OF 1, of c1] title_key_prefix [OF 3] by simp
  then have "crawl_ai_news (env_of [a1, b1, c1]) 0 = Inr [a1\<lparr>category := categorize a1\<rparr>]"
    by (simp add: crawl_ai_news_def survivors_def all_articles_env_of slice_to_def)
       (simp add: env_of_def)
  then show ?thesis using 1 2 3 all_articles_env_of by simp
qed

text \<open>
  C10, as the code has it. The maximum 0 stands for \<open>NEWS_MAX_ARTICLES\<close>. For a
  positive maximum the result is the first so many of the surviving articles, in order.
  So with a positive \<open>NEWS_MAX_ARTICLES\<close> no maximum from 0 upwards gives an empty
  result while an article survives. A negative maximum is a Python slice from the end:
  it drops that many of the last articles.
\<close>

theorem C10_max_articles:
  "crawl_ai_news e 0 = crawl_ai_news e (NEWS_MAX_ARTICLES e)
   \<and> (0 < m \<longrightarrow>
        crawl_ai_news e m =
          (case survivors e of Inl err \<Rightarrow> Inl err | Inr s \<Rightarrow> Inr (take (nat m) s)))
   \<and> (0 \<le> m \<and> 0 < NEWS_MAX_ARTICLES e \<and> survivors e = Inr s \<and> s \<noteq> [] \<longrightarrow>
        (\<exists>r. crawl_ai_news e m = Inr r \<and> r \<noteq> []))
   \<and> (m < 0 \<and> survivors e = Inr s \<longrightarrow>
        crawl_ai_news e m = Inr (take (length s - nat (- m)) s))"
  by (auto simp: crawl_ai_news_def slice_to_def Let_def split: sum.splits)

theorem C10_max_articles_witness:
  "crawl_ai_news (env_of [a1]) 0 = Inr [a1\<lparr>category := categorize a1\<rparr>]
   \<and> crawl_ai_news (env_of [a1]) 1 = Inr [a1\<lparr>category := categorize a1\<rparr>]"
proof -
  have s: "survivors (env_of [a1]) = Inr [a1\<lparr>category := categorize a1\<rparr>]"
    by (simp add: survivors_def all_articles_env_of deduplicate_def dedup_loop_Cons)
       (simp add: env_of_def)
  have n: "NEWS_MAX_ARTICLES (env_of [a1]) = 15" by (simp add: env_of_def)
  show ?thesis
    using C10_max_articles [of "env_of [a1]" 1 "[a1\<lparr>category := categorize a1\<rparr>]"]
          C10_max_articles [of "env_of [a1]" 15 "[a1\<lparr>category := categorize a1\<rparr>]"]
    by (simp add: s n)
qed

text \<open>
  The claim as it is written fails: with one surviving article the maximum \<open>-1\<close> gives
  the empty list.
\<close>

theorem C10_counterexample:
  "survivors (env_of [a1]) = Inr [a1\<lparr>category := categorize a1\<rparr>]
   \<and> crawl_ai_news (env_of [a1]) (- 1) = Inr []"
proof -
  have s: "survivors (env_of [a1]) = Inr [a1\<lparr>category := categorize a1\<rparr>]"
    by (simp add: survivors_def all_articles_env_of deduplicate_def dedup_loop_Cons)
       (simp add: env_of_def)
  then show ?thesis by (simp add: crawl_ai_news_def slice_to_def)
qed

text \<open>
  C3. The parser does raise: on \<open>2026-02-30\<close> the ISO parser of the library rejects
  the text (there is no 30th of February), the numeric pattern matches, and the
  constructor \<open>datetime(2026, 2, 30)\<close>, which stands outside the \<open>try\<close>, raises
  \<open>ValueError\<close>.
\<close>

theorem C3_parse_datetime_raises:
  "fromiso (u ''2026-02-30'') = None \<Longrightarrow>
   parse_datetime fromiso (u ''2026-02-30'') = Inl ValueError"
  by (simp add: eval_date)

theorem C3_parse_datetime_raises_witness:
  "parse_datetime (\<lambda>_. None) (u ''2026-02-30'') = Inl ValueError"
  using C3_parse_datetime_raises [of "\<lambda>_. None"] by simp

text \<open>
  C7, as the code has it. When the raw hint parses, or when it does not and the string
  recovered from the page of the article parses, \<open>published_at\<close> becomes the ISO form of
  the date. When nothing parses, the article is left as it was: \<open>published_at\<close> keeps
  the raw hint if there was one.
\<close>

theorem C7_enrich_published_at:
  "(parse_datetime fromiso (case published_at a of None \<Rightarrow> [] | Some s \<Rightarrow> s) = Inr (Some dt) \<longrightarrow>
      enrich_published_at fromiso fetch a
        = Inr (a\<lparr>published_at := Some (isoformat dt)\<rparr>, Some dt))
   \<and> (parse_datetime fromiso (case published_at a of None \<Rightarrow> [] | Some s \<Rightarrow> s) = Inr None
        \<and> fetch (url a) = Some sp
        \<and> parse_datetime fromiso (extract_published_from_soup sp) = Inr (Some dt) \<longrightarrow>
      enrich_published_at fromiso fetch a
        = Inr (a\<lparr>published_at := Some (isoformat dt)\<rparr>, Some dt))
   \<and> (parse_datetime fromiso (case published_at a of None \<Rightarrow> [] | Some s \<Rightarrow> s) = Inr None
        \<and> (fetch (url a) = None
            \<or> (fetch (url a) = Some sp
                \<and> parse_datetime fromiso (extract_published_from_soup sp) = Inr None)) \<longrightarrow>
      enrich_published_at fromiso fetch a = Inr (a, None))"
  by (auto simp: enrich_published_at_def)

theorem C7_enrich_published_at_witness:
  "enrich_published_at (\<lambda>_. None) (\<lambda>_. None)
     ((art ''A dated story'' ''https://example.com/d'')\<lparr>published_at := Some (u ''2026-02-07'')\<rparr>)
   = Inr ((art ''A dated story'' ''https://example.com/d'')
            \<lparr>published_at := Some (isoformat \<lparr>year = 2026, month = 2, day = 7, hour = 0,
                 minute = 0, second = 0, microsecond = 0, utcoffset = None\<rparr>)\<rparr>,
          Some \<lparr>year = 2026, month = 2, day = 7, hour = 0,
                 minute = 0, second = 0, microsecond = 0, utcoffset = None\<rparr>)"
proof -
  have "parse_datetime (\<lambda>_. None) (u ''2026-02-07'') =
    Inr (Some \<lparr>year = 2026, month = 2, day = 7, hour = 0, minute = 0, second = 0,
                microsecond = 0, utcoffset = None\<rparr>)"
    by (simp add: eval_date)
  then show ?thesis
    using C7_enrich_published_at [of "\<lambda>_. None"
      "(art ''A dated story'' ''https://example.com/d'')\<lparr>published_at := Some (u ''2026-02-07'')\<rparr>"
      "\<lparr>year = 2026, month = 2, day = 7, hour = 0, minute = 0, second = 0,
                microsecond = 0, utcoffset = None\<rparr>" "\<lambda>_. None"]
    by simp
qed

text \<open>
  The claim as it is written fails: an article whose hint is \<open>yesterday\<close> and whose page
  cannot be fetched keeps the hint, so \<open>published_at\<close> is not unset.
\<close>

theorem C7_counterexample:
  "enrich_published_at (\<lambda>_. None) (\<lambda>_. None) stale = Inr (stale, None)
   \<and> published_at stale = Some (u ''yesterday'')
   \<and> published_at stale \<noteq> None"
proof -
  have "parse_datetime (\<lambda>_. None) (u ''yesterday'') = Inr None"
    by (simp add: eval_date)
  then show ?thesis by (simp add: enrich_published_at_def stale_def art_def)
qed

text \<open>
  C9. When the crawl returns no article, \<open>run_pipeline\<close> returns the result with the
  status \<open>empty\<close> and the count 0, raises nothing and makes no call to the document
  service: no document is created and no message is sent.
\<close>

theorem C9_empty_outcome:
  "crawl_ai_news e 0 = Inr [] \<Longrightarrow>
   run_pipeline e f dry_run = (Inr Empty, [])
   \<and> status_of Empty = u ''empty'' \<and> article_count_of Empty = 0"
  by (simp add: run_pipeline_def)

theorem C9_empty_outcome_witness:
  "crawl_ai_news (env_of []) 0 = Inr []
   \<and> run_pipeline (env_of []) feishu_ok False = (Inr Empty, [])"
proof -
  have "crawl_ai_news (env_of []) 0 = Inr []"
    by (simp add: crawl_ai_news_def survivors_def all_articles_env_of deduplicate_def
          slice_to_def)
  then show ?thesis using C9_empty_outcome [of "env_of []" feishu_ok False] by simp
qed

end
